theory Spec2Isabelle
  imports Main
begin

section \<open>Database event listeners (services/api.ts, class DatabaseEvents)\<close>

text \<open>
  Lines 42 to 82 of services/api.ts. A registered callback is a JavaScript function
  reference. The listener arrays compare callbacks by reference
  (\<^verbatim>\<open>cb !== callback\<close>), so a callback is modelled by the identity of its reference;
  what it does when called is given by a separate table \<open>run\<close>: called on a background
  in a world \<open>'w\<close>, a callback leaves a new world and either returns (\<open>None\<close>) or
  throws (\<open>Some e\<close>). The listener arrays are kept outside this world: a callback
  that registers or removes callbacks does not change which callbacks the running emit
  calls, since \<^verbatim>\<open>forEach\<close> visits the elements present when it starts and a removal
  puts a new array in place of the old one.
\<close>

type_synonym callback = nat

type_synonym ('b, 'w) behaviour = "callback \<Rightarrow> 'b \<Rightarrow> 'w \<Rightarrow> 'w \<times> string option"

record listeners =
  backgroundAdded :: "callback list"
  backgroundUpdated :: "callback list"

definition no_listeners :: listeners where
  "no_listeners = \<lparr>backgroundAdded = [], backgroundUpdated = []\<rparr>"

definition offBackgroundAdded :: "listeners \<Rightarrow> callback \<Rightarrow> listeners" where
  "offBackgroundAdded ls callback =
     ls\<lparr>backgroundAdded := filter (\<lambda>cb. cb \<noteq> callback) (backgroundAdded ls)\<rparr>"

definition offBackgroundUpdated :: "listeners \<Rightarrow> callback \<Rightarrow> listeners" where
  "offBackgroundUpdated ls callback =
     ls\<lparr>backgroundUpdated := filter (\<lambda>cb. cb \<noteq> callback) (backgroundUpdated ls)\<rparr>"

text \<open>
  \<^verbatim>\<open>push\<close> appends; the value returned is the unsubscribe closure
  \<^verbatim>\<open>() => this.offBackgroundAdded(callback)\<close>, a function on the listener state.
\<close>

definition onBackgroundAdded :: "listeners \<Rightarrow> callback \<Rightarrow> listeners \<times> (listeners \<Rightarrow> listeners)" where
  "onBackgroundAdded ls callback =
     (ls\<lparr>backgroundAdded := backgroundAdded ls @ [callback]\<rparr>,
      \<lambda>ls'. offBackgroundAdded ls' callback)"

definition onBackgroundUpdated :: "listeners \<Rightarrow> callback \<Rightarrow> listeners \<times> (listeners \<Rightarrow> listeners)" where
  "onBackgroundUpdated ls callback =
     (ls\<lparr>backgroundUpdated := backgroundUpdated ls @ [callback]\<rparr>,
      \<lambda>ls'. offBackgroundUpdated ls' callback)"

text \<open>
  \<^verbatim>\<open>Array.prototype.forEach\<close> calls the function on each element in index order; an
  exception thrown by a call leaves \<^verbatim>\<open>forEach\<close> at once. The result is the list of
  elements the function was called on, the world left behind, and the exception that
  came out, if any.
\<close>

fun forEach :: "('a \<Rightarrow> 'w \<Rightarrow> 'w \<times> string option) \<Rightarrow> 'a list \<Rightarrow> 'w
                  \<Rightarrow> 'a list \<times> 'w \<times> string option" where
  "forEach f [] w = ([], w, None)"
| "forEach f (x # xs) w =
     (case f x w of
        (w', Some e) \<Rightarrow> ([x], w', Some e)
      | (w', None) \<Rightarrow> (case forEach f xs w' of (called, w'', r) \<Rightarrow> (x # called, w'', r)))"

definition emitBackgroundAdded ::
    "('b, 'w) behaviour \<Rightarrow> listeners \<Rightarrow> 'b \<Rightarrow> 'w \<Rightarrow> callback list \<times> 'w \<times> string option" where
  "emitBackgroundAdded run ls background w =
     forEach (\<lambda>callback. run callback background) (backgroundAdded ls) w"

definition emitBackgroundUpdated ::
    "('b, 'w) behaviour \<Rightarrow> listeners \<Rightarrow> 'b \<Rightarrow> 'w \<Rightarrow> callback list \<times> 'w \<times> string option" where
  "emitBackgroundUpdated run ls background w =
     forEach (\<lambda>callback. run callback background) (backgroundUpdated ls) w"

text \<open>
  The world in which the callback at index \<open>i\<close> of the list is called by an emit that
  starts in \<open>w\<close>, when the callbacks before it have returned.
\<close>

definition world_before :: "('b, 'w) behaviour \<Rightarrow> 'b \<Rightarrow> 'w \<Rightarrow> callback list \<Rightarrow> nat \<Rightarrow> 'w" where
  "world_before run b w cs i = foldl (\<lambda>w cb. fst (run cb b w)) w (take i cs)"

text \<open>
  Tables of callbacks for examples. In the first, every callback appends its own
  reference to the world (a log), and callback \<open>2\<close> throws instead. In the second, a
  callback appends its reference when it is called for the first time and throws when
  the log already holds it.
\<close>

definition once_run :: "(unit, callback list) behaviour" where
  "once_run cb b w = (if cb \<in> set w then (w, Some ''twice'') else (w @ [cb], None))"

definition logging_run :: "(unit, callback list) behaviour" where
  "logging_run cb b w = (if cb = 2 then (w, Some ''boom'') else (w @ [cb], None))"

section \<open>Session store and network (services/api.ts)\<close>

text \<open>
  \<^verbatim>\<open>localStorage\<close> is a key-value store of strings; \<^verbatim>\<open>getItem\<close> gives
  \<^verbatim>\<open>null\<close> (\<open>None\<close>) for a key that is not set. The calls of \<^verbatim>\<open>authLog\<close>,
  \<^verbatim>\<open>apiLog\<close> and \<^verbatim>\<open>console\<close> only write logs and are left out of the model.
\<close>

type_synonym storage = "string \<rightharpoonup> string"

definition getItem :: "storage \<Rightarrow> string \<Rightarrow> string option" where
  "getItem st k = st k"

definition setItem :: "storage \<Rightarrow> string \<Rightarrow> string \<Rightarrow> storage" where
  "setItem st k v = st(k \<mapsto> v)"

definition removeItem :: "storage \<Rightarrow> string \<Rightarrow> storage" where
  "removeItem st k = st(k := None)"

text \<open>JavaScript truthiness of a value that is a string or \<^verbatim>\<open>null\<close>.\<close>

fun truthy :: "string option \<Rightarrow> bool" where
  "truthy None = False"
| "truthy (Some s) = (s \<noteq> [])"

text \<open>
  The \<^verbatim>\<open>token\<close> field of a login response: absent (or another falsy value), a
  string, or a truthy value that is not a string.
\<close>

datatype token_field = NoToken | StrToken string | OtherToken

fun truthy_token :: "token_field \<Rightarrow> bool" where
  "truthy_token NoToken = False"
| "truthy_token (StrToken s) = (s \<noteq> [])"
| "truthy_token OtherToken = True"

text \<open>
  The fields of a response body that the client reads: \<^verbatim>\<open>token\<close>, whether
  \<^verbatim>\<open>user\<close> and \<^verbatim>\<open>walletAddress\<close> are truthy, the \<^verbatim>\<open>error\<close> message, and the
  nested \<^verbatim>\<open>data\<close>. A body that is \<^verbatim>\<open>null\<close> or \<^verbatim>\<open>undefined\<close> is \<open>None\<close>:
  reading a field of it throws. Every other body is \<open>Some\<close> of the fields read from
  it; a primitive body such as the empty string has none of them, and a test of the
  body together with one of its fields fails for it as it does for an object without
  that field.
\<close>

record body =
  d_token :: token_field
  d_user :: bool
  d_walletAddress :: bool
  d_error :: "string option"
  d_data :: "string option"

type_synonym data = "body option"

text \<open>
  An axios call resolves with the response data on a 2xx status, and rejects with an
  error carrying a message and, when the server answered, \<^verbatim>\<open>error.response\<close> with its
  status and data.
\<close>

datatype axios_result =
    Resolved data
  | Rejected string "(nat \<times> data) option"

text \<open>What can be thrown: a plain \<^verbatim>\<open>Error\<close> (also a \<^verbatim>\<open>TypeError\<close>) or an axios error.\<close>

datatype exn =
    Error string
  | AxiosError string "(nat \<times> data) option"

fun exn_message :: "exn \<Rightarrow> string" where
  "exn_message (Error m) = m"
| "exn_message (AxiosError m r) = m"

fun exn_response :: "exn \<Rightarrow> (nat \<times> data) option" where
  "exn_response (Error m) = None"
| "exn_response (AxiosError m r) = r"

text \<open>The requests of the client; a GET carries the \<^verbatim>\<open>Authorization\<close> header, if any.\<close>

datatype request =
    PostLogin string string
  | GetMe "string option"
  | PostTransfer "string option" string string
  | PostClaim "string option" string string

text \<open>
  The world of the client: the persisted store and the requests sent so far. The
  server is a function of the number of requests it has seen and of the request.
\<close>

record world =
  localStorage :: storage
  sent :: "request list"

type_synonym server = "nat \<Rightarrow> request \<Rightarrow> axios_result"

definition axios :: "server \<Rightarrow> request \<Rightarrow> world \<Rightarrow> axios_result \<times> world" where
  "axios srv req w = (srv (length (sent w)) req, w\<lparr>sent := sent w @ [req]\<rparr>)"

text \<open>
  \<^verbatim>\<open>getToken\<close> (lines 134 to 161) and \<^verbatim>\<open>getAuthHeaders\<close> (lines 164 to 185): the
  \<^verbatim>\<open>Authorization\<close> header is set when a token is stored.
\<close>

definition getToken :: "world \<Rightarrow> string option" where
  "getToken w =
     (let token = getItem (localStorage w) ''token''
      in if \<not> truthy token then None else token)"

definition getAuthHeaders :: "world \<Rightarrow> string option" where
  "getAuthHeaders w =
     (case getToken w of
        Some token \<Rightarrow> if token \<noteq> [] then Some (''Bearer '' @ token) else None
      | None \<Rightarrow> None)"

subsection \<open>loginWithWallet\<close>

text \<open>
  \<^verbatim>\<open>String.prototype.toLowerCase\<close>. A character of the model is a code unit below
  256; among these the upper-case letters are A to Z (65 to 90) and the Latin-1 letters
  192 to 222 except the multiplication sign 215, and each is lower-cased by adding 32.
  Strings with other code units are outside the model.
\<close>

definition is_upper :: "char \<Rightarrow> bool" where
  "is_upper c =
     (let n = (of_char c :: nat)
      in (65 \<le> n \<and> n \<le> 90) \<or> (192 \<le> n \<and> n \<le> 222 \<and> n \<noteq> 215))"

definition lower_char :: "char \<Rightarrow> char" where
  "lower_char c = (if is_upper c then char_of ((of_char c :: nat) + 32) else c)"

definition toLowerCase :: "string \<Rightarrow> string" where
  "toLowerCase s = map lower_char s"

text \<open>
  The body of the \<^verbatim>\<open>try\<close> block (lines 756 to 802): the request, the validation of the
  response, the two writes and the check of the stored token. A truthy token that is not
  a string has no \<^verbatim>\<open>substring\<close> method, so the log line before the writes throws.
\<close>

definition loginWithWallet_try :: "server \<Rightarrow> string \<Rightarrow> string \<Rightarrow> world \<Rightarrow> (exn + body) \<times> world" where
  "loginWithWallet_try srv walletAddress signature w =
     (let normalizedAddress = toLowerCase walletAddress;
          (response, w1) = axios srv (PostLogin normalizedAddress signature) w
      in case response of
           Rejected m r \<Rightarrow> (Inl (AxiosError m r), w1)
         | Resolved None \<Rightarrow>
             (Inl (Error ''Authentication failed: server response missing token''), w1)
         | Resolved (Some d) \<Rightarrow>
             if \<not> truthy_token (d_token d)
             then (Inl (Error ''Authentication failed: server response missing token''), w1)
             else (case d_token d of
                     StrToken token \<Rightarrow>
                       (let st1 = setItem (localStorage w1) ''token'' token;
                            st2 = setItem st1 ''walletAddress'' walletAddress;
                            w2 = w1\<lparr>localStorage := st2\<rparr>;
                            storedToken = getItem st2 ''token''
                        in if storedToken \<noteq> Some token
                           then (Inl (Error ''Failed to store authentication token''), w2)
                           else (Inr d, w2))
                   | _ \<Rightarrow> (Inl (Error ''token.substring is not a function''), w1)))"

text \<open>The \<^verbatim>\<open>catch\<close> block (lines 803 to 826) rethrows every error as a plain \<^verbatim>\<open>Error\<close>.\<close>

definition loginWithWallet_catch :: "exn \<Rightarrow> exn" where
  "loginWithWallet_catch error =
     (let generic = Error (''Failed to login with wallet: '' @
                      (if exn_message error \<noteq> [] then exn_message error else ''Unknown error''))
      in case exn_response error of
           Some (status, Some d) \<Rightarrow>
             (case d_error d of
                Some e \<Rightarrow> if e \<noteq> [] then Error (''Login failed: '' @ e) else generic
              | None \<Rightarrow> generic)
         | _ \<Rightarrow> generic)"

definition loginWithWallet :: "server \<Rightarrow> string \<Rightarrow> string \<Rightarrow> world \<Rightarrow> (exn + body) \<times> world" where
  "loginWithWallet srv walletAddress signature w =
     (case loginWithWallet_try srv walletAddress signature w of
        (Inl error, w') \<Rightarrow> (Inl (loginWithWallet_catch error), w')
      | (Inr d, w') \<Rightarrow> (Inr d, w'))"

definition logout :: "world \<Rightarrow> world" where
  "logout w = w\<lparr>localStorage := removeItem (removeItem (localStorage w) ''token'') ''walletAddress''\<rparr>"

subsection \<open>checkAuthState\<close>

text \<open>
  \<^verbatim>\<open>token.split(".")\<close>: the pieces between the separators; a string without the
  separator is one piece.
\<close>

fun split :: "char \<Rightarrow> string \<Rightarrow> string list" where
  "split sep [] = ['''']"
| "split sep (c # cs) =
     (if c = sep then [] # split sep cs
      else (case split sep cs of
              p # ps \<Rightarrow> (c # p) # ps
            | [] \<Rightarrow> [c # '''']))"

text \<open>
  \<^verbatim>\<open>JSON.parse(atob(parts[1]))\<close> followed by the read of \<^verbatim>\<open>payload.exp\<close> is a
  parameter of the model: it throws (also when the payload is \<^verbatim>\<open>null\<close>), or gives a payload
  whose \<^verbatim>\<open>exp\<close> is absent, or an \<^verbatim>\<open>exp\<close> that is a whole number of seconds. An
  \<^verbatim>\<open>exp\<close> that is not a whole number is outside the model.
\<close>

datatype decoded = DecodeThrows | Claims "int option"

type_synonym decoder = "string \<Rightarrow> decoded"

text \<open>
  \<^verbatim>\<open>new Date(ms).getTime()\<close>: a time value beyond 8.64e15 milliseconds from the epoch
  is an invalid date, whose time is \<^verbatim>\<open>NaN\<close> (\<open>None\<close>); every comparison with
  \<^verbatim>\<open>NaN\<close> is false. Within that range the product \<^verbatim>\<open>payload.exp * 1000\<close> of a whole
  number is exact in double precision.
\<close>

definition getTime :: "int \<Rightarrow> int option" where
  "getTime ms = (if \<bar>ms\<bar> > 8640000000000000 then None else Some ms)"

text \<open>
  The decision of the inner \<^verbatim>\<open>try\<close> block (lines 874 to 885) up to the call of the
  refresh; \<open>now\<close> is \<^verbatim>\<open>new Date().getTime()\<close>, in milliseconds. It is true when
  the token has three parts, its payload decodes, \<^verbatim>\<open>payload.exp\<close> is truthy and the
  expiry is less than ten minutes after \<open>now\<close>.
\<close>

definition token_expiring :: "decoder \<Rightarrow> int \<Rightarrow> string \<Rightarrow> bool" where
  "token_expiring decode now token =
     (let parts = split CHR ''.'' token
      in if length parts = 3
         then (case decode (parts ! 1) of
                 DecodeThrows \<Rightarrow> False
               | Claims None \<Rightarrow> False
               | Claims (Some exp) \<Rightarrow>
                   if exp \<noteq> 0
                   then (case getTime (exp * 1000) of
                           None \<Rightarrow> False
                         | Some expiryDate \<Rightarrow> expiryDate - now < 10 * 60 * 1000)
                   else False)
         else False)"

text \<open>
  The three local outcomes of \<^verbatim>\<open>checkAuthState\<close> before it sends anything: the early
  return for a missing token or address (lines 858 to 871), the refresh branch (line 885),
  and the fall through to the test request. \<^verbatim>\<open>checkAuthState\<close> below branches on it.
\<close>

datatype SessionState = Unauthenticated | Valid | ExpiringSoon

definition evaluate :: "decoder \<Rightarrow> int \<Rightarrow> storage \<Rightarrow> SessionState" where
  "evaluate decode now st =
     (let token = getItem st ''token'';
          walletAddress = getItem st ''walletAddress''
      in if \<not> truthy token \<or> \<not> truthy walletAddress then Unauthenticated
         else (case token of
                 Some t \<Rightarrow> if token_expiring decode now t then ExpiringSoon else Valid
               | None \<Rightarrow> Unauthenticated))"

record auth_result =
  isAuthenticated :: bool
  message :: string

definition mock_signature :: "string \<Rightarrow> string" where
  "mock_signature walletAddress = ''mock_signature_for_'' @ walletAddress"

text \<open>The test request \<^verbatim>\<open>GET /api/auth/me\<close> and what follows it (lines 923 to 989).\<close>

definition validate_request :: "server \<Rightarrow> string \<Rightarrow> world \<Rightarrow> auth_result \<times> world" where
  "validate_request srv walletAddress w =
     (let (response, w1) = axios srv (GetMe (getAuthHeaders w)) w
      in case response of
           Resolved d \<Rightarrow>
             if (case d of None \<Rightarrow> False | Some b \<Rightarrow> d_user b \<or> d_walletAddress b)
             then (\<lparr>isAuthenticated = True,
                    message = ''Authentication validated successfully''\<rparr>, w1)
             else (\<lparr>isAuthenticated = False,
                    message = ''Authentication validation failed''\<rparr>, w1)
         | Rejected m r \<Rightarrow>
             (let failed = \<lparr>isAuthenticated = False,
                    message = ''Authentication validation failed: '' @
                              (if m \<noteq> [] then m else ''Unknown error'')\<rparr>
              in case r of
                   Some (status, d) \<Rightarrow>
                     if status = 401
                     then (case loginWithWallet srv walletAddress (mock_signature walletAddress) w1 of
                             (Inr refreshResponse, w2) \<Rightarrow>
                               if truthy_token (d_token refreshResponse)
                               then (\<lparr>isAuthenticated = True,
                                      message = ''Authentication refreshed successfully''\<rparr>, w2)
                               else (failed, w2)
                           | (Inl refreshError, w2) \<Rightarrow> (failed, w2))
                     else (failed, w1)
                 | None \<Rightarrow> (failed, w1)))"

text \<open>
  The refresh of the expiry branch sits inside the \<^verbatim>\<open>try\<close> whose \<^verbatim>\<open>catch\<close> is
  meant for decoding errors: an error thrown by the login is caught there too, and the
  function goes on to the test request.
\<close>

definition checkAuthState :: "server \<Rightarrow> decoder \<Rightarrow> int \<Rightarrow> world \<Rightarrow> auth_result \<times> world" where
  "checkAuthState srv decode now w =
     (let walletAddress = (case getItem (localStorage w) ''walletAddress'' of
                             Some a \<Rightarrow> a | None \<Rightarrow> [])
      in case evaluate decode now (localStorage w) of
           Unauthenticated \<Rightarrow>
             (\<lparr>isAuthenticated = False,
               message = ''Not authenticated - please connect your wallet''\<rparr>, w)
         | ExpiringSoon \<Rightarrow>
             (case loginWithWallet srv walletAddress (mock_signature walletAddress) w of
                (Inr response, w1) \<Rightarrow>
                  if truthy_token (d_token response)
                  then (\<lparr>isAuthenticated = True,
                         message = ''Authentication refreshed successfully''\<rparr>, w1)
                  else (\<lparr>isAuthenticated = False,
                         message = ''Failed to refresh authentication''\<rparr>, w1)
              | (Inl decodeError, w1) \<Rightarrow> validate_request srv walletAddress w1)
         | Valid \<Rightarrow> validate_request srv walletAddress w)"

subsection \<open>Gift card operations\<close>

text \<open>
  \<^verbatim>\<open>transferGiftCard\<close> (lines 485 to 505) returns the response data or throws;
  \<^verbatim>\<open>claimGiftCard\<close> (lines 539 to 566) always returns a result object.
\<close>

record api_result =
  r_success :: bool
  r_data :: "string option"
  r_error :: "string option"

definition transferGiftCard :: "server \<Rightarrow> string \<Rightarrow> string \<Rightarrow> world \<Rightarrow> (exn + data) \<times> world" where
  "transferGiftCard srv giftCardId recipientAddress w =
     (let (response, w1) = axios srv (PostTransfer (getAuthHeaders w) giftCardId recipientAddress) w
      in case response of
           Resolved d \<Rightarrow> (Inr d, w1)
         | Rejected m r \<Rightarrow> (Inl (Error ''Failed to transfer gift card''), w1))"

text \<open>
  \<^verbatim>\<open>error.response?.data?.error || "Failed to claim gift card"\<close>; reading
  \<^verbatim>\<open>response.data.data\<close> of a \<^verbatim>\<open>null\<close> or \<^verbatim>\<open>undefined\<close> body throws inside the
  \<^verbatim>\<open>try\<close>; any other body gives success, with the data it has.
\<close>

definition response_error :: "(nat \<times> data) option \<Rightarrow> string option" where
  "response_error r =
     (case r of
        Some (status, Some d) \<Rightarrow> d_error d
      | _ \<Rightarrow> None)"

definition claimGiftCard :: "server \<Rightarrow> string \<Rightarrow> string \<Rightarrow> world \<Rightarrow> api_result \<times> world" where
  "claimGiftCard srv giftCardId secret w =
     (let (response, w1) = axios srv (PostClaim (getAuthHeaders w) giftCardId secret) w
      in case response of
           Resolved (Some d) \<Rightarrow>
             (\<lparr>r_success = True, r_data = d_data d, r_error = None\<rparr>, w1)
         | Resolved None \<Rightarrow>
             (\<lparr>r_success = False, r_data = None, r_error = Some ''Failed to claim gift card''\<rparr>, w1)
         | Rejected m r \<Rightarrow>
             (\<lparr>r_success = False, r_data = None,
               r_error = Some (case response_error r of
                                 Some e \<Rightarrow> if e \<noteq> [] then e else ''Failed to claim gift card''
                               | None \<Rightarrow> ''Failed to claim gift card'')\<rparr>, w1))"

section \<open>Status polling of a pending background (page CreateBackground)\<close>

text \<open>
  Lines 26 to 96 of the page. The component keeps \<^verbatim>\<open>pendingBackgroundId\<close> in React state. The effect that depends
  on it sends one status check and starts an interval that sends one more every ten
  seconds; its cleanup clears the interval. The model keeps, besides the state, the
  interval that is running (with the id its closure holds), the status requests that
  were sent and have no answer yet, and the toasts shown. A state setter of a component
  that is no longer mounted does nothing, and a setter called with the current value
  does not run the effect again.
\<close>

datatype toast =
    MintedToast "string option" string
  | FailedToast

text \<open>
  What \<^verbatim>\<open>verifyBackgroundStatus\<close> gives back: it throws, or it returns the status and
  the \<^verbatim>\<open>background\<close> object with its \<^verbatim>\<open>blockchainId\<close> and \<^verbatim>\<open>transactionHash\<close>.
\<close>

datatype verify_result =
    VerifyThrows
  | VerifyData string "(string option \<times> string option) option"

record component =
  mounted :: bool
  pendingBackgroundId :: "nat option"
  intervalId :: "nat option"
  inflight :: "nat list"
  toasts :: "toast list"

definition initial_component :: component where
  "initial_component =
     \<lparr>mounted = True, pendingBackgroundId = None, intervalId = None, inflight = [], toasts = []\<rparr>"

definition checkBackgroundStatus_send :: "nat \<Rightarrow> component \<Rightarrow> component" where
  "checkBackgroundStatus_send backgroundId c = c\<lparr>inflight := inflight c @ [backgroundId]\<rparr>"

definition cleanup :: "component \<Rightarrow> component" where
  "cleanup c = c\<lparr>intervalId := None\<rparr>"

text \<open>The effect body; \<^verbatim>\<open>if (pendingBackgroundId)\<close> is false for \<^verbatim>\<open>null\<close> and for 0.\<close>

definition effect :: "component \<Rightarrow> component" where
  "effect c =
     (case pendingBackgroundId c of
        Some backgroundId \<Rightarrow>
          if backgroundId \<noteq> 0
          then (checkBackgroundStatus_send backgroundId c)\<lparr>intervalId := Some backgroundId\<rparr>
          else c
      | None \<Rightarrow> c)"

definition setPendingBackgroundId :: "nat option \<Rightarrow> component \<Rightarrow> component" where
  "setPendingBackgroundId v c =
     (if \<not> mounted c then c
      else if pendingBackgroundId c = v then c
      else effect (cleanup (c\<lparr>pendingBackgroundId := v\<rparr>)))"

text \<open>
  The rest of \<^verbatim>\<open>checkBackgroundStatus\<close>, run when the answer arrives. Reading
  \<^verbatim>\<open>blockchainId\<close> of a missing \<^verbatim>\<open>background\<close> throws, and the \<^verbatim>\<open>catch\<close> only
  logs.
\<close>

definition checkBackgroundStatus_receive :: "verify_result \<Rightarrow> component \<Rightarrow> component" where
  "checkBackgroundStatus_receive response c =
     (case response of
        VerifyThrows \<Rightarrow> c
      | VerifyData status background \<Rightarrow>
          if status = ''confirmed''
          then (case background of
                  None \<Rightarrow> c
                | Some (blockchainId, transactionHash) \<Rightarrow>
                    (case blockchainId of
                       Some b \<Rightarrow>
                         if b \<noteq> []
                         then setPendingBackgroundId None
                                (c\<lparr>toasts := toasts c @ [MintedToast transactionHash b]\<rparr>)
                         else c
                     | None \<Rightarrow> c))
          else if status = ''failed''
          then setPendingBackgroundId None (c\<lparr>toasts := toasts c @ [FailedToast]\<rparr>)
          else c)"

text \<open>An answer with status confirmed, a blockchain id and a transaction hash.\<close>

definition confirmed_answer :: "string \<Rightarrow> string option \<Rightarrow> verify_result" where
  "confirmed_answer blockchainId transactionHash =
     VerifyData ''confirmed'' (Some (Some blockchainId, transactionHash))"

datatype event =
    SetPending nat
  | Tick
  | Response nat verify_result
  | Unmount

fun step :: "component \<Rightarrow> event \<Rightarrow> component" where
  "step c (SetPending backgroundId) = setPendingBackgroundId (Some backgroundId) c"
| "step c Tick =
     (case intervalId c of
        Some backgroundId \<Rightarrow> checkBackgroundStatus_send backgroundId c
      | None \<Rightarrow> c)"
| "step c (Response backgroundId response) =
     (if backgroundId \<in> set (inflight c)
      then checkBackgroundStatus_receive response (c\<lparr>inflight := remove1 backgroundId (inflight c)\<rparr>)
      else c)"
| "step c Unmount = (cleanup c)\<lparr>mounted := False\<rparr>"

definition run_events :: "component \<Rightarrow> event list \<Rightarrow> component" where
  "run_events c es = foldl step c es"

section \<open>Example inputs\<close>

definition one_listener :: listeners where
  "one_listener = \<lparr>backgroundAdded = [1], backgroundUpdated = []\<rparr>"

text \<open>The requests a call has added to the ones sent before it.\<close>

definition new_requests :: "world \<Rightarrow> world \<Rightarrow> request list" where
  "new_requests w w' = drop (length (sent w)) (sent w')"

definition session_world :: "string \<Rightarrow> string \<Rightarrow> world" where
  "session_world token walletAddress =
     \<lparr>localStorage = setItem (setItem Map.empty ''token'' token) ''walletAddress'' walletAddress,
      sent = []\<rparr>"

definition empty_body :: body where
  "empty_body = \<lparr>d_token = NoToken, d_user = False, d_walletAddress = False,
                  d_error = None, d_data = None\<rparr>"

text \<open>A server that accepts every login and every test request.\<close>

definition token_server :: server where
  "token_server n req =
     (case req of
        PostLogin address signature \<Rightarrow>
          Resolved (Some (empty_body\<lparr>d_token := StrToken ''aaa.bbb.ccc''\<rparr>))
      | _ \<Rightarrow> Resolved (Some (empty_body\<lparr>d_user := True\<rparr>)))"

text \<open>A server whose answers are 200 with a body that has no token.\<close>

definition no_token_server :: server where
  "no_token_server n req = Resolved (Some empty_body)"

text \<open>A server that rejects the test request with status 401 and accepts a login.\<close>

definition revoked_server :: server where
  "revoked_server n req =
     (case req of
        GetMe h \<Rightarrow> Rejected ''Request failed with status code 401'' (Some (401, None))
      | PostLogin address signature \<Rightarrow>
          Resolved (Some (empty_body\<lparr>d_token := StrToken ''aaa.bbb.ccc''\<rparr>))
      | _ \<Rightarrow> Resolved None)"

text \<open>A server that rejects the test request with status 401 and every login as well.\<close>

definition rejecting_server :: server where
  "rejecting_server n req =
     (case req of
        GetMe h \<Rightarrow> Rejected ''Request failed with status code 401'' (Some (401, None))
      | _ \<Rightarrow> Rejected ''Request failed with status code 500'' (Some (500, None)))"

text \<open>A server that refuses every gift card operation with a message of its own.\<close>

definition owner_only_server :: server where
  "owner_only_server n req =
     Rejected ''Request failed with status code 403''
       (Some (403, Some (empty_body\<lparr>d_error := Some ''only the owner may transfer''\<rparr>)))"

text \<open>Decoders: one whose payload has the given \<^verbatim>\<open>exp\<close>, one that always throws.\<close>

definition exp_decoder :: "int \<Rightarrow> decoder" where
  "exp_decoder e segment = Claims (Some e)"

definition no_decoder :: decoder where
  "no_decoder segment = DecodeThrows"

definition empty_world :: world where
  "empty_world = \<lparr>localStorage = Map.empty, sent = []\<rparr>"

fun is_probe :: "request \<Rightarrow> bool" where
  "is_probe (GetMe h) = True"
| "is_probe _ = False"

section \<open>Properties of the listener registry\<close>

lemma forEach_all_return:
  "\<forall>x \<in> set xs. \<forall>w. snd (f x w) = None \<Longrightarrow>
   forEach f xs w = (xs, foldl (\<lambda>w x. fst (f x w)) w xs, None)"
proof (induction xs arbitrary: w)
  case Nil
  show ?case by simp
next
  case (Cons x xs)
  from Cons.prems have r: "snd (f x w) = None" by simp
  from Cons.prems have rest: "\<forall>y \<in> set xs. \<forall>w. snd (f y w) = None" by simp
  obtain w' where fx: "f x w = (w', None)" using r by (cases "f x w") auto
  show ?case using Cons.IH [OF rest, of w'] fx by simp
qed

lemma forEach_returns:
  "\<forall>i<length xs. snd (f (xs ! i) (foldl (\<lambda>w x. fst (f x w)) w (take i xs))) = None \<Longrightarrow>
   forEach f xs w = (xs, foldl (\<lambda>w x. fst (f x w)) w xs, None)"
proof (induction xs arbitrary: w)
  case Nil
  show ?case by simp
next
  case (Cons x xs)
  from Cons.prems [rule_format, of 0] have r: "snd (f x w) = None" by simp
  then obtain w1 where fx: "f x w = (w1, None)" by (cases "f x w") auto
  have rest: "\<forall>i<length xs. snd (f (xs ! i) (foldl (\<lambda>w x. fst (f x w)) w1 (take i xs))) = None"
  proof (intro allI impI)
    fix i assume "i < length xs"
    then have "Suc i < length (x # xs)" by simp
    from Cons.prems [rule_format, OF this] fx show
      "snd (f (xs ! i) (foldl (\<lambda>w x. fst (f x w)) w1 (take i xs))) = None" by simp
  qed
  show ?case using Cons.IH [OF rest] fx by simp
qed

lemma forEach_throws_at:
  assumes "k < length xs"
    and "\<forall>i<k. snd (f (xs ! i) (foldl (\<lambda>w x. fst (f x w)) w (take i xs))) = None"
    and "f (xs ! k) (foldl (\<lambda>w x. fst (f x w)) w (take k xs)) = (w', Some e)"
  shows "forEach f xs w = (take (Suc k) xs, w', Some e)"
  using assms
proof (induction xs arbitrary: w k)
  case Nil
  then show ?case by simp
next
  case (Cons x xs)
  show ?case
  proof (cases k)
    case 0
    with Cons.prems(3) show ?thesis by simp
  next
    case (Suc j)
    from Cons.prems(2) [rule_format, of 0] Suc have r: "snd (f x w) = None" by simp
    then obtain w1 where fx: "f x w = (w1, None)" by (cases "f x w") auto
    have j: "j < length xs" using Cons.prems(1) Suc by simp
    have rest: "\<forall>i<j. snd (f (xs ! i) (foldl (\<lambda>w x. fst (f x w)) w1 (take i xs))) = None"
    proof (intro allI impI)
      fix i assume "i < j"
      then have "Suc i < k" using Suc by simp
      from Cons.prems(2) [rule_format, OF this] fx show
        "snd (f (xs ! i) (foldl (\<lambda>w x. fst (f x w)) w1 (take i xs))) = None" by simp
    qed
    have thr: "f (xs ! j) (foldl (\<lambda>w x. fst (f x w)) w1 (take j xs)) = (w', Some e)"
      using Cons.prems(3) Suc fx by simp
    show ?thesis using Cons.IH [OF j rest thr] fx Suc by simp
  qed
qed

text \<open>
  Claim C3, as stated, fails: with the callbacks 1, 2 and 3 registered in this order and
  callback 2 throwing, the emit calls 1 and 2 only, callback 3 is never called, and the
  exception comes out of the emit.
\<close>

theorem emit_throw_aborts_counterexample:
  "emitBackgroundAdded logging_run \<lparr>backgroundAdded = [1, 2, 3], backgroundUpdated = []\<rparr> () []
     = ([1, 2], [1], Some ''boom'')"
  by (simp add: emitBackgroundAdded_def logging_run_def)

text \<open>
  Claim C3, amended: an emit, of either event, calls the registered callbacks in
  registration order up to and including the first one that throws in this run: the
  callbacks registered before it have run, the ones registered after it are not called,
  and the exception is thrown to the caller of the emit. When no callback throws in the
  run, every callback is called and the emit returns.
\<close>

theorem emit_stops_at_first_throw:
  "(k < length cs
      \<and> (\<forall>i<k. snd (run (cs ! i) b (world_before run b w cs i)) = None)
      \<and> run (cs ! k) b (world_before run b w cs k) = (w', Some e)
    \<longrightarrow> (backgroundAdded ls = cs \<longrightarrow>
           emitBackgroundAdded run ls b w = (take (Suc k) cs, w', Some e))
      \<and> (backgroundUpdated ls = cs \<longrightarrow>
           emitBackgroundUpdated run ls b w = (take (Suc k) cs, w', Some e)))
   \<and> ((\<forall>i<length cs. snd (run (cs ! i) b (world_before run b w cs i)) = None)
    \<longrightarrow> (backgroundAdded ls = cs \<longrightarrow>
           emitBackgroundAdded run ls b w = (cs, world_before run b w cs (length cs), None))
      \<and> (backgroundUpdated ls = cs \<longrightarrow>
           emitBackgroundUpdated run ls b w = (cs, world_before run b w cs (length cs), None)))"
proof -
  have thr: "forEach (\<lambda>cb. run cb b) cs w = (take (Suc k) cs, w', Some e)"
    if "k < length cs"
      and "\<forall>i<k. snd (run (cs ! i) b (world_before run b w cs i)) = None"
      and "run (cs ! k) b (world_before run b w cs k) = (w', Some e)"
    using that forEach_throws_at [of k cs "\<lambda>cb. run cb b" w w' e]
    by (simp add: world_before_def)
  have ret: "forEach (\<lambda>cb. run cb b) cs w = (cs, world_before run b w cs (length cs), None)"
    if "\<forall>i<length cs. snd (run (cs ! i) b (world_before run b w cs i)) = None"
    using that forEach_returns [of cs "\<lambda>cb. run cb b" w]
    by (simp add: world_before_def)
  from thr ret show ?thesis
    by (auto simp: emitBackgroundAdded_def emitBackgroundUpdated_def)
qed

theorem emit_stops_at_first_throw_witness:
  "emitBackgroundAdded once_run \<lparr>backgroundAdded = [5, 5, 6], backgroundUpdated = [7]\<rparr> () []
      = ([5, 5], [5], Some ''twice'')
   \<and> emitBackgroundUpdated once_run \<lparr>backgroundAdded = [7], backgroundUpdated = [5, 5, 6]\<rparr> () []
      = ([5, 5], [5], Some ''twice'')
   \<and> emitBackgroundUpdated once_run \<lparr>backgroundAdded = [5, 5, 6], backgroundUpdated = [7]\<rparr> () []
      = ([7], [7], None)"
proof -
  have k: "(1::nat) < length [5, 5, 6 :: nat]" by simp
  have pre: "\<forall>i<1. snd (once_run ([5, 5, 6] ! i) () (world_before once_run () [] [5, 5, 6] i)) = None"
    by (simp add: once_run_def world_before_def)
  have thr: "once_run ([5, 5, 6] ! 1) () (world_before once_run () [] [5, 5, 6] 1) = ([5], Some ''twice'')"
    by (simp add: once_run_def world_before_def)
  have all: "\<forall>i<length [7::nat]. snd (once_run ([7] ! i) () (world_before once_run () [] [7] i)) = None"
    by (simp add: once_run_def world_before_def)
  have w7: "world_before once_run () [] [7] (length [7::nat]) = [7]"
    by (simp add: once_run_def world_before_def)
  from emit_stops_at_first_throw [where run = once_run and cs = "[5, 5, 6]" and k = 1 and b = "()"
      and w = "[]" and w' = "[5]" and e = "''twice''"
      and ls = "\<lparr>backgroundAdded = [5, 5, 6], backgroundUpdated = [7]\<rparr>"] k pre thr
  have a: "emitBackgroundAdded once_run \<lparr>backgroundAdded = [5, 5, 6], backgroundUpdated = [7]\<rparr> () []
      = ([5, 5], [5], Some ''twice'')" by simp
  from emit_stops_at_first_throw [where run = once_run and cs = "[5, 5, 6]" and k = 1 and b = "()"
      and w = "[]" and w' = "[5]" and e = "''twice''"
      and ls = "\<lparr>backgroundAdded = [7], backgroundUpdated = [5, 5, 6]\<rparr>"] k pre thr
  have u: "emitBackgroundUpdated once_run \<lparr>backgroundAdded = [7], backgroundUpdated = [5, 5, 6]\<rparr> () []
      = ([5, 5], [5], Some ''twice'')" by simp
  from emit_stops_at_first_throw [where run = once_run and cs = "[7]" and b = "()"
      and w = "[]" and ls = "\<lparr>backgroundAdded = [5, 5, 6], backgroundUpdated = [7]\<rparr>"] all w7
  have n: "emitBackgroundUpdated once_run \<lparr>backgroundAdded = [5, 5, 6], backgroundUpdated = [7]\<rparr> () []
      = ([7], [7], None)" by simp
  from a u n show ?thesis by blast
qed

text \<open>
  Claim C4, as stated, fails: after two registrations of callback 7, a single
  \<open>offBackgroundAdded\<close> leaves no registration of it.
\<close>

theorem single_unsubscribe_counterexample:
  "backgroundAdded
     (offBackgroundAdded (fst (onBackgroundAdded (fst (onBackgroundAdded no_listeners 7)) 7)) 7) = []"
  by (simp add: onBackgroundAdded_def offBackgroundAdded_def no_listeners_def)

text \<open>
  Claim C4, amended: registering a callback \<open>h\<close> twice appends it twice, and an emit in
  which no callback throws calls it twice. A single unsubscribe removes every
  registration of \<open>h\<close> and keeps the other callbacks in order; a second unsubscribe,
  through either of the two closures returned, changes nothing.
\<close>

theorem subscribe_twice_unsubscribe_once:
  assumes "\<forall>cb \<in> set (backgroundAdded ls @ [h]). \<forall>w. snd (run cb b w) = None"
    and "onBackgroundAdded ls h = (ls1, unsubscribe1)"
    and "onBackgroundAdded ls1 h = (ls2, unsubscribe2)"
  shows "backgroundAdded ls2 = backgroundAdded ls @ [h, h]
    \<and> fst (emitBackgroundAdded run ls2 b w) = backgroundAdded ls @ [h, h]
    \<and> backgroundAdded (unsubscribe1 ls2) = filter (\<lambda>cb. cb \<noteq> h) (backgroundAdded ls)
    \<and> h \<notin> set (backgroundAdded (unsubscribe1 ls2))
    \<and> unsubscribe2 (unsubscribe1 ls2) = unsubscribe1 ls2
    \<and> unsubscribe1 (unsubscribe1 ls2) = unsubscribe1 ls2"
proof -
  from assms(2) have ls1: "ls1 = ls\<lparr>backgroundAdded := backgroundAdded ls @ [h]\<rparr>"
    and u1: "unsubscribe1 = (\<lambda>l. offBackgroundAdded l h)"
    by (auto simp: onBackgroundAdded_def)
  from assms(3) have ls2: "ls2 = ls1\<lparr>backgroundAdded := backgroundAdded ls1 @ [h]\<rparr>"
    and u2: "unsubscribe2 = (\<lambda>l. offBackgroundAdded l h)"
    by (auto simp: onBackgroundAdded_def)
  have reg: "backgroundAdded ls2 = backgroundAdded ls @ [h, h]"
    by (simp add: ls1 ls2)
  have nothrow: "\<forall>cb \<in> set (backgroundAdded ls2). \<forall>w. snd (run cb b w) = None"
    using assms(1) by (simp add: reg)
  have called: "fst (emitBackgroundAdded run ls2 b w) = backgroundAdded ls @ [h, h]"
    unfolding emitBackgroundAdded_def
    using forEach_all_return [of "backgroundAdded ls2" "\<lambda>cb. run cb b" w] nothrow
    by (simp add: reg)
  have off: "backgroundAdded (unsubscribe1 ls2) = filter (\<lambda>cb. cb \<noteq> h) (backgroundAdded ls)"
    by (simp add: u1 offBackgroundAdded_def reg)
  have gone: "h \<notin> set (backgroundAdded (unsubscribe1 ls2))"
    by (simp add: off)
  have idem: "unsubscribe1 (unsubscribe1 ls2) = unsubscribe1 ls2"
    by (simp add: u1 offBackgroundAdded_def)
  have idem2: "unsubscribe2 (unsubscribe1 ls2) = unsubscribe1 ls2"
    using idem by (simp add: u1 u2)
  from reg called off gone idem idem2 show ?thesis by blast
qed

theorem subscribe_twice_unsubscribe_once_witness:
  "backgroundAdded (fst (onBackgroundAdded (fst (onBackgroundAdded one_listener 3)) 3)) = [1, 3, 3]
   \<and> fst (emitBackgroundAdded logging_run
            (fst (onBackgroundAdded (fst (onBackgroundAdded one_listener 3)) 3)) () []) = [1, 3, 3]
   \<and> backgroundAdded (snd (onBackgroundAdded one_listener 3)
        (fst (onBackgroundAdded (fst (onBackgroundAdded one_listener 3)) 3))) = [1]"
proof -
  have a: "\<forall>cb \<in> set (backgroundAdded one_listener @ [3]). \<forall>w. snd (logging_run cb () w) = None"
    by (simp add: logging_run_def one_listener_def)
  have b: "onBackgroundAdded one_listener 3
      = (fst (onBackgroundAdded one_listener 3), snd (onBackgroundAdded one_listener 3))"
    by simp
  have c: "onBackgroundAdded (fst (onBackgroundAdded one_listener 3)) 3
      = (fst (onBackgroundAdded (fst (onBackgroundAdded one_listener 3)) 3),
         snd (onBackgroundAdded (fst (onBackgroundAdded one_listener 3)) 3))"
    by simp
  from subscribe_twice_unsubscribe_once [where run = logging_run and b = "()" and w = "[]", OF a b c]
  show ?thesis by (simp add: one_listener_def)
qed

section \<open>Properties of the status polling\<close>

lemma ticks_without_interval:
  "intervalId c = None \<Longrightarrow> run_events c (replicate n Tick) = c"
  by (induction n) (simp_all add: run_events_def)

lemma ticks_with_interval:
  "intervalId c = Some k \<Longrightarrow>
   run_events c (replicate n Tick) = c\<lparr>inflight := inflight c @ replicate n k\<rparr>"
proof (induction n arbitrary: c)
  case 0
  show ?case by (simp add: run_events_def)
next
  case (Suc n)
  let ?c1 = "checkBackgroundStatus_send k c"
  have i: "intervalId ?c1 = Some k" using Suc.prems by (simp add: checkBackgroundStatus_send_def)
  have "run_events c (replicate (Suc n) Tick) = run_events ?c1 (replicate n Tick)"
    using Suc.prems by (simp add: run_events_def)
  also have "\<dots> = ?c1\<lparr>inflight := inflight ?c1 @ replicate n k\<rparr>"
    using Suc.IH [OF i] .
  also have "\<dots> = c\<lparr>inflight := inflight c @ replicate (Suc n) k\<rparr>"
    by (simp add: checkBackgroundStatus_send_def replicate_app_Cons_same)
  finally show ?case .
qed

lemma late_answer_any_state:
  assumes "backgroundId \<in> set (inflight c)" and "b \<noteq> []"
  shows "step c (Response backgroundId (confirmed_answer b tx)) =
     (if mounted c \<and> pendingBackgroundId c \<noteq> None
      then c\<lparr>inflight := remove1 backgroundId (inflight c),
             toasts := toasts c @ [MintedToast tx b],
             pendingBackgroundId := None, intervalId := None\<rparr>
      else c\<lparr>inflight := remove1 backgroundId (inflight c),
             toasts := toasts c @ [MintedToast tx b]\<rparr>)"
  using assms
  by (auto simp: confirmed_answer_def checkBackgroundStatus_receive_def setPendingBackgroundId_def
      effect_def cleanup_def)

text \<open>
  Claim C1, as stated, fails: a status check for background 42 is in flight when the
  component is unmounted; when its answer arrives afterwards with status confirmed and a
  blockchain id, the success toast is shown.
\<close>

theorem late_confirmed_response_counterexample:
  "toasts (run_events initial_component
       [SetPending 42, Unmount,
        Response 42 (VerifyData ''confirmed'' (Some (Some ''0xabc'', Some ''0xfeed'')))])
     = [MintedToast (Some ''0xfeed'') ''0xabc'']"
  by (simp add: run_events_def initial_component_def setPendingBackgroundId_def effect_def
      cleanup_def checkBackgroundStatus_send_def checkBackgroundStatus_receive_def)

text \<open>
  Claim C1, amended: the polling effect is torn down when the component is unmounted and
  when the pending id changes (to another id, or to null). Either way the interval of the old id is cleared and no
  later tick sends a status check for it, but a status check in flight is not discarded:
  in every state in which its answer arrives with status confirmed and a blockchain id,
  the success toast is shown. If the component is mounted at that moment, the answer also
  sets the pending id to null and clears the running interval, also when they belong to a
  newer poll; if the component is unmounted, the answer changes neither.
\<close>

theorem late_response_after_teardown:
  assumes "backgroundId \<in> set (inflight c)" and "b \<noteq> []"
  shows "toasts (step c (Response backgroundId (confirmed_answer b tx)))
           = toasts c @ [MintedToast tx b]
    \<and> pendingBackgroundId (step c (Response backgroundId (confirmed_answer b tx)))
         = (if mounted c then None else pendingBackgroundId c)
    \<and> intervalId (step c (Response backgroundId (confirmed_answer b tx)))
         = (if mounted c \<and> pendingBackgroundId c \<noteq> None then None else intervalId c)
    \<and> intervalId (step c Unmount) = None
    \<and> run_events (step c Unmount) (replicate n Tick) = step c Unmount
    \<and> toasts (step (step c Unmount) (Response backgroundId (confirmed_answer b tx)))
         = toasts c @ [MintedToast tx b]
    \<and> intervalId (step (step c Unmount) (Response backgroundId (confirmed_answer b tx))) = None
    \<and> pendingBackgroundId (step (step c Unmount) (Response backgroundId (confirmed_answer b tx)))
         = pendingBackgroundId c
    \<and> (mounted c \<and> pendingBackgroundId c \<noteq> Some other \<and> other \<noteq> backgroundId \<longrightarrow>
         intervalId (step c (SetPending other)) = (if other \<noteq> 0 then Some other else None)
       \<and> count_list (inflight (run_events (step c (SetPending other)) (replicate n Tick))) backgroundId
            = count_list (inflight c) backgroundId
       \<and> toasts (step (step c (SetPending other)) (Response backgroundId (confirmed_answer b tx)))
            = toasts c @ [MintedToast tx b]
       \<and> pendingBackgroundId
            (step (step c (SetPending other)) (Response backgroundId (confirmed_answer b tx))) = None
       \<and> intervalId
            (step (step c (SetPending other)) (Response backgroundId (confirmed_answer b tx))) = None)
    \<and> (mounted c \<and> pendingBackgroundId c \<noteq> None \<longrightarrow>
         intervalId (setPendingBackgroundId None c) = None
       \<and> run_events (setPendingBackgroundId None c) (replicate n Tick) = setPendingBackgroundId None c
       \<and> toasts (step (setPendingBackgroundId None c) (Response backgroundId (confirmed_answer b tx)))
            = toasts c @ [MintedToast tx b])"
proof -
  note any = late_answer_any_state [OF _ assms(2)]
  have g: "toasts (step c (Response backgroundId (confirmed_answer b tx)))
           = toasts c @ [MintedToast tx b]"
    using any [OF assms(1), of tx] by simp
  have gp: "pendingBackgroundId (step c (Response backgroundId (confirmed_answer b tx)))
         = (if mounted c then None else pendingBackgroundId c)"
    using any [OF assms(1), of tx]
    by (cases "mounted c \<and> pendingBackgroundId c \<noteq> None") auto
  have gi: "intervalId (step c (Response backgroundId (confirmed_answer b tx)))
         = (if mounted c \<and> pendingBackgroundId c \<noteq> None then None else intervalId c)"
    using any [OF assms(1), of tx]
    by (cases "mounted c \<and> pendingBackgroundId c \<noteq> None") auto
  let ?u = "step c Unmount"
  have ui: "intervalId ?u = None" by (simp add: cleanup_def)
  have ut: "run_events ?u (replicate n Tick) = ?u"
    using ticks_without_interval [OF ui] .
  have uin: "backgroundId \<in> set (inflight ?u)" using assms(1) by (simp add: cleanup_def)
  have um: "\<not> mounted ?u" by (simp add: cleanup_def)
  have ur: "step ?u (Response backgroundId (confirmed_answer b tx))
      = ?u\<lparr>inflight := remove1 backgroundId (inflight ?u), toasts := toasts ?u @ [MintedToast tx b]\<rparr>"
    using any [OF uin, of tx] um by simp
  have u1: "toasts (step ?u (Response backgroundId (confirmed_answer b tx))) = toasts c @ [MintedToast tx b]"
    unfolding ur by (simp add: cleanup_def)
  have u2: "intervalId (step ?u (Response backgroundId (confirmed_answer b tx))) = None"
    unfolding ur by (simp add: cleanup_def)
  have u3: "pendingBackgroundId (step ?u (Response backgroundId (confirmed_answer b tx)))
      = pendingBackgroundId c"
    unfolding ur by (simp add: cleanup_def)
  have ch: "intervalId (step c (SetPending other)) = (if other \<noteq> 0 then Some other else None)
       \<and> count_list (inflight (run_events (step c (SetPending other)) (replicate n Tick))) backgroundId
            = count_list (inflight c) backgroundId
       \<and> toasts (step (step c (SetPending other)) (Response backgroundId (confirmed_answer b tx)))
            = toasts c @ [MintedToast tx b]
       \<and> pendingBackgroundId
            (step (step c (SetPending other)) (Response backgroundId (confirmed_answer b tx))) = None
       \<and> intervalId
            (step (step c (SetPending other)) (Response backgroundId (confirmed_answer b tx))) = None"
    if m: "mounted c" and p: "pendingBackgroundId c \<noteq> Some other" and o: "other \<noteq> backgroundId"
  proof -
    let ?s = "step c (SetPending other)"
    have s: "?s = (if other \<noteq> 0
                   then c\<lparr>pendingBackgroundId := Some other, intervalId := Some other,
                          inflight := inflight c @ [other]\<rparr>
                   else c\<lparr>pendingBackgroundId := Some other, intervalId := None\<rparr>)"
      using m p by (simp add: setPendingBackgroundId_def effect_def cleanup_def
          checkBackgroundStatus_send_def)
    have si: "intervalId ?s = (if other \<noteq> 0 then Some other else None)"
      unfolding s by simp
    have sin: "backgroundId \<in> set (inflight ?s)" unfolding s using assms(1) by simp
    have sm: "mounted ?s \<and> pendingBackgroundId ?s \<noteq> None" unfolding s using m by simp
    have st: "toasts ?s = toasts c" unfolding s by simp
    have ticks: "count_list (inflight (run_events ?s (replicate n Tick))) backgroundId
            = count_list (inflight c) backgroundId"
    proof (cases "other = 0")
      case True
      then have "intervalId ?s = None" using si by simp
      from ticks_without_interval [OF this] show ?thesis unfolding s using True by simp
    next
      case False
      then have "intervalId ?s = Some other" using si by simp
      from ticks_with_interval [OF this, of n] have
        "inflight (run_events ?s (replicate n Tick)) = inflight ?s @ replicate n other" by simp
      then show ?thesis unfolding s using False o by (simp add: count_list_0_iff)
    qed
    have r: "step ?s (Response backgroundId (confirmed_answer b tx))
        = ?s\<lparr>inflight := remove1 backgroundId (inflight ?s),
             toasts := toasts ?s @ [MintedToast tx b],
             pendingBackgroundId := None, intervalId := None\<rparr>"
      using any [OF sin, of tx] sm by simp
    show ?thesis using si ticks st unfolding r by simp
  qed
  have rs: "intervalId (setPendingBackgroundId None c) = None
       \<and> run_events (setPendingBackgroundId None c) (replicate n Tick) = setPendingBackgroundId None c
       \<and> toasts (step (setPendingBackgroundId None c) (Response backgroundId (confirmed_answer b tx)))
            = toasts c @ [MintedToast tx b]"
    if m: "mounted c" and p: "pendingBackgroundId c \<noteq> None"
  proof -
    let ?z = "setPendingBackgroundId None c"
    have z: "?z = c\<lparr>pendingBackgroundId := None, intervalId := None\<rparr>"
      using m p by (auto simp: setPendingBackgroundId_def effect_def cleanup_def)
    have zi: "intervalId ?z = None" unfolding z by simp
    have zt: "run_events ?z (replicate n Tick) = ?z"
      using ticks_without_interval [OF zi] .
    have zin: "backgroundId \<in> set (inflight ?z)" unfolding z using assms(1) by simp
    have "toasts (step ?z (Response backgroundId (confirmed_answer b tx)))
        = toasts ?z @ [MintedToast tx b]"
      using any [OF zin, of tx] by simp
    then have zr: "toasts (step ?z (Response backgroundId (confirmed_answer b tx)))
        = toasts c @ [MintedToast tx b]" unfolding z by simp
    from zi zt zr show ?thesis by blast
  qed
  from g gp gi ui ut u1 u2 u3 ch rs show ?thesis by blast
qed

theorem late_response_after_teardown_witness:
  "42 \<in> set (inflight (step initial_component (SetPending 42)))
   \<and> toasts (run_events initial_component
        [SetPending 42, Unmount, Response 42 (confirmed_answer ''0xabc'' (Some ''0xfeed''))])
      = [MintedToast (Some ''0xfeed'') ''0xabc'']
   \<and> toasts (run_events initial_component
        [SetPending 42, SetPending 43, Response 42 (confirmed_answer ''0xabc'' (Some ''0xfeed''))])
      = [MintedToast (Some ''0xfeed'') ''0xabc'']
   \<and> pendingBackgroundId (run_events initial_component
        [SetPending 42, SetPending 43, Response 42 (confirmed_answer ''0xabc'' (Some ''0xfeed''))])
      = None
   \<and> intervalId (run_events initial_component
        [SetPending 42, SetPending 43, Response 42 (confirmed_answer ''0xabc'' (Some ''0xfeed''))])
      = None"
proof -
  let ?c = "step initial_component (SetPending 42)"
  have c: "?c = \<lparr>mounted = True, pendingBackgroundId = Some 42, intervalId = Some 42,
                 inflight = [42], toasts = []\<rparr>"
    by (simp add: initial_component_def setPendingBackgroundId_def effect_def
        cleanup_def checkBackgroundStatus_send_def)
  have a: "42 \<in> set (inflight ?c)" unfolding c by simp
  have b: "''0xabc'' \<noteq> []" by simp
  have m: "mounted ?c \<and> pendingBackgroundId ?c \<noteq> Some 43 \<and> (43::nat) \<noteq> 42"
    unfolding c by simp
  have t: "toasts ?c = []" unfolding c by simp
  from late_response_after_teardown [where tx = "Some ''0xfeed''" and n = 0 and other = 43, OF a b]
    m a t
  show ?thesis by (simp add: run_events_def)
qed

section \<open>Properties of the login\<close>

lemma login_try_sent:
  "sent (snd (loginWithWallet_try srv a sg w)) = sent w @ [PostLogin (toLowerCase a) sg]"
  by (simp add: loginWithWallet_try_def axios_def Let_def getItem_def setItem_def
      split: axios_result.splits option.splits token_field.splits)

lemma login_sent:
  "sent (snd (loginWithWallet srv a sg w)) = sent w @ [PostLogin (toLowerCase a) sg]"
  using login_try_sent [of srv a sg w]
  by (cases "loginWithWallet_try srv a sg w") (auto simp: loginWithWallet_def split: sum.splits)

lemma login_try_success:
  assumes "loginWithWallet_try srv a sg w = (Inr d, w')"
  shows "\<exists>t. t \<noteq> [] \<and> d_token d = StrToken t
     \<and> srv (length (sent w)) (PostLogin (toLowerCase a) sg) = Resolved (Some d)
     \<and> w' = \<lparr>localStorage = (localStorage w)(''token'' \<mapsto> t, ''walletAddress'' \<mapsto> a),
              sent = sent w @ [PostLogin (toLowerCase a) sg]\<rparr>"
  using assms
  by (auto simp: loginWithWallet_try_def axios_def Let_def getItem_def setItem_def
      split: axios_result.splits option.splits token_field.splits if_splits)

lemma login_success:
  assumes "loginWithWallet srv a sg w = (Inr d, w')"
  shows "\<exists>t. t \<noteq> [] \<and> d_token d = StrToken t
     \<and> srv (length (sent w)) (PostLogin (toLowerCase a) sg) = Resolved (Some d)
     \<and> w' = \<lparr>localStorage = (localStorage w)(''token'' \<mapsto> t, ''walletAddress'' \<mapsto> a),
              sent = sent w @ [PostLogin (toLowerCase a) sg]\<rparr>"
proof -
  from assms have "loginWithWallet_try srv a sg w = (Inr d, w')"
    by (auto simp: loginWithWallet_def split: prod.splits sum.splits)
  then show ?thesis by (rule login_try_success)
qed

lemma lower_char_not_upper: "\<not> is_upper (lower_char c)"
  by (auto simp: is_upper_def lower_char_def Let_def)

text \<open>
  Claim C5: when the login request is answered with a success status and a body that has
  no token, \<open>loginWithWallet\<close> throws an error and the store is as it was before the
  call: neither the token key nor the wallet address key is written.
\<close>

theorem login_missing_token_fails:
  assumes "srv (length (sent w)) (PostLogin (toLowerCase a) sg) = Resolved d"
    and "case d of None \<Rightarrow> True | Some b \<Rightarrow> \<not> truthy_token (d_token b)"
  shows "fst (loginWithWallet srv a sg w)
           = Inl (Error ''Failed to login with wallet: Authentication failed: server response missing token'')
     \<and> localStorage (snd (loginWithWallet srv a sg w)) = localStorage w"
  using assms
  by (auto simp: loginWithWallet_def loginWithWallet_try_def loginWithWallet_catch_def axios_def
      Let_def split: option.splits)

theorem login_missing_token_fails_witness:
  "no_token_server (length (sent (session_world ''old'' ''0xAbC''))) (PostLogin (toLowerCase ''0xAbC'') ''sig'')
      = Resolved (Some empty_body)
   \<and> \<not> truthy_token (d_token empty_body)
   \<and> fst (loginWithWallet no_token_server ''0xAbC'' ''sig'' (session_world ''old'' ''0xAbC''))
           = Inl (Error ''Failed to login with wallet: Authentication failed: server response missing token'')
   \<and> localStorage (snd (loginWithWallet no_token_server ''0xAbC'' ''sig'' (session_world ''old'' ''0xAbC'')))
           = localStorage (session_world ''old'' ''0xAbC'')"
proof -
  have a: "no_token_server (length (sent (session_world ''old'' ''0xAbC''))) (PostLogin (toLowerCase ''0xAbC'') ''sig'')
      = Resolved (Some empty_body)"
    by (simp add: no_token_server_def)
  have b: "case Some empty_body of None \<Rightarrow> True | Some b \<Rightarrow> \<not> truthy_token (d_token b)"
    by (simp add: empty_body_def)
  from login_missing_token_fails [where srv = no_token_server and a = "''0xAbC''" and sg = "''sig''"
      and w = "session_world ''old'' ''0xAbC''" and d = "Some empty_body", OF a b] a b
  show ?thesis by simp
qed

text \<open>
  Claim C9: on every successful login the address in the request is the lower-case form
  of the caller's address, and the address written to the store is the caller's string
  as it was given.
\<close>

theorem login_normalizes_wire_address_only:
  assumes "loginWithWallet srv a sg w = (Inr d, w')"
  shows "sent w' = sent w @ [PostLogin (toLowerCase a) sg]
     \<and> list_all (\<lambda>c. \<not> is_upper c) (toLowerCase a)
     \<and> getItem (localStorage w') ''walletAddress'' = Some a"
proof -
  from login_success [OF assms] obtain t where
    w': "w' = \<lparr>localStorage = (localStorage w)(''token'' \<mapsto> t, ''walletAddress'' \<mapsto> a),
              sent = sent w @ [PostLogin (toLowerCase a) sg]\<rparr>" by blast
  have low: "list_all (\<lambda>c. \<not> is_upper c) (toLowerCase a)"
    by (simp add: toLowerCase_def list_all_iff lower_char_not_upper)
  from w' low show ?thesis by (simp add: getItem_def)
qed

theorem login_normalizes_wire_address_only_witness:
  "loginWithWallet token_server ''0xAbC'' ''sig'' (session_world ''old'' ''0xAbC'')
     = (Inr (empty_body\<lparr>d_token := StrToken ''aaa.bbb.ccc''\<rparr>),
        \<lparr>localStorage = setItem (setItem Map.empty ''token'' ''aaa.bbb.ccc'') ''walletAddress'' ''0xAbC'',
         sent = [PostLogin ''0xabc'' ''sig'']\<rparr>)
   \<and> sent \<lparr>localStorage = setItem (setItem Map.empty ''token'' ''aaa.bbb.ccc'') ''walletAddress'' ''0xAbC'',
         sent = [PostLogin ''0xabc'' ''sig'']\<rparr>
       = sent (session_world ''old'' ''0xAbC'') @ [PostLogin (toLowerCase ''0xAbC'') ''sig'']
   \<and> getItem (setItem (setItem Map.empty ''token'' ''aaa.bbb.ccc'') ''walletAddress'' ''0xAbC'')
        ''walletAddress'' = Some ''0xAbC''
   \<and> toLowerCase ''0xAbC'' = ''0xabc''"
proof -
  have low: "toLowerCase ''0xAbC'' = ''0xabc''"
    by code_simp
  have run: "loginWithWallet token_server ''0xAbC'' ''sig'' (session_world ''old'' ''0xAbC'')
     = (Inr (empty_body\<lparr>d_token := StrToken ''aaa.bbb.ccc''\<rparr>),
        \<lparr>localStorage = setItem (setItem Map.empty ''token'' ''aaa.bbb.ccc'') ''walletAddress'' ''0xAbC'',
         sent = [PostLogin ''0xabc'' ''sig'']\<rparr>)"
    by (simp add: loginWithWallet_def loginWithWallet_try_def axios_def token_server_def low
        session_world_def empty_body_def setItem_def getItem_def)
  from login_normalizes_wire_address_only [OF run] run low show ?thesis by simp
qed

lemma login_keeps_keys:
  assumes "getItem (localStorage w) k \<noteq> None"
  shows "getItem (localStorage (snd (loginWithWallet srv a sg w))) k \<noteq> None"
proof (cases "loginWithWallet_try srv a sg w")
  case (Pair r w')
  have "localStorage w' = localStorage w
      \<or> (\<exists>t. localStorage w' = (localStorage w)(''token'' \<mapsto> t, ''walletAddress'' \<mapsto> a))"
    using Pair
    by (auto simp: loginWithWallet_try_def axios_def Let_def getItem_def setItem_def
        split: axios_result.splits option.splits token_field.splits if_splits)
  then have "getItem (localStorage w') k \<noteq> None"
    using assms by (auto simp: getItem_def)
  then show ?thesis using Pair by (cases r) (simp_all add: loginWithWallet_def)
qed

lemma lower_example: "toLowerCase ''0xAbC'' = ''0xabc''"
  by code_simp

section \<open>Properties of checkAuthState\<close>

lemma evaluate_present:
  assumes "getItem st ''token'' = Some t" "t \<noteq> []"
    and "getItem st ''walletAddress'' = Some a" "a \<noteq> []"
  shows "evaluate decode now st = (if token_expiring decode now t then ExpiringSoon else Valid)"
  using assms by (simp add: evaluate_def)

lemma getAuthHeaders_present:
  assumes "getItem (localStorage w) ''token'' = Some t" "t \<noteq> []"
  shows "getAuthHeaders w = Some (''Bearer '' @ t)"
  using assms by (simp add: getAuthHeaders_def getToken_def)

text \<open>The requests of the test request block, by the answer to the test request.\<close>

lemma validate_request_calls:
  "new_requests w (snd (validate_request srv a w)) =
     (case srv (length (sent w)) (GetMe (getAuthHeaders w)) of
        Rejected m (Some (status, d)) \<Rightarrow>
          if status = 401
          then [GetMe (getAuthHeaders w), PostLogin (toLowerCase a) (mock_signature a)]
          else [GetMe (getAuthHeaders w)]
      | _ \<Rightarrow> [GetMe (getAuthHeaders w)])"
proof -
  let ?w1 = "w\<lparr>sent := sent w @ [GetMe (getAuthHeaders w)]\<rparr>"
  have l: "sent (snd (loginWithWallet srv a (mock_signature a) ?w1))
      = sent w @ [GetMe (getAuthHeaders w), PostLogin (toLowerCase a) (mock_signature a)]"
    by (simp add: login_sent)
  show ?thesis
    using l
    by (cases "loginWithWallet srv a (mock_signature a) ?w1")
       (auto simp: validate_request_def axios_def new_requests_def Let_def
          split: axios_result.splits option.splits sum.splits prod.splits)
qed

lemma validate_request_extends:
  "\<exists>rest. sent (snd (validate_request srv a w)) = sent w @ rest"
proof -
  let ?w1 = "w\<lparr>sent := sent w @ [GetMe (getAuthHeaders w)]\<rparr>"
  have l: "sent (snd (loginWithWallet srv a (mock_signature a) ?w1))
      = sent w @ [GetMe (getAuthHeaders w), PostLogin (toLowerCase a) (mock_signature a)]"
    by (simp add: login_sent)
  show ?thesis
    using l
    by (cases "loginWithWallet srv a (mock_signature a) ?w1")
       (auto simp: validate_request_def axios_def Let_def
          split: axios_result.splits option.splits sum.splits prod.splits)
qed

lemma validate_request_first:
  "take 1 (new_requests w (snd (validate_request srv a w))) = [GetMe (getAuthHeaders w)]"
  unfolding validate_request_calls
  by (simp split: axios_result.splits option.splits prod.splits)

lemma validate_request_keeps_keys:
  assumes "getItem (localStorage w) k \<noteq> None"
  shows "getItem (localStorage (snd (validate_request srv a w))) k \<noteq> None"
proof -
  let ?w1 = "w\<lparr>sent := sent w @ [GetMe (getAuthHeaders w)]\<rparr>"
  have k1: "getItem (localStorage ?w1) k \<noteq> None" using assms by simp
  have l: "getItem (localStorage (snd (loginWithWallet srv a (mock_signature a) ?w1))) k \<noteq> None"
    using login_keeps_keys [OF k1] .
  show ?thesis
    using l assms
    by (cases "loginWithWallet srv a (mock_signature a) ?w1")
       (auto simp: validate_request_def axios_def Let_def
          split: axios_result.splits option.splits sum.splits prod.splits)
qed

lemma validate_request_probe_other:
  assumes "srv (length (sent w)) (GetMe (getAuthHeaders w)) = Rejected m resp"
    and "\<forall>d. resp \<noteq> Some (401, d)"
  shows "\<not> isAuthenticated (fst (validate_request srv a w))"
  using assms
  by (auto simp: validate_request_def axios_def Let_def split: option.splits prod.splits)

lemma validate_request_probe_401:
  assumes "srv (length (sent w)) (GetMe (getAuthHeaders w)) = Rejected m (Some (401, d))"
  shows "isAuthenticated (fst (validate_request srv a w))
       = (\<not> isl (fst (loginWithWallet srv a (mock_signature a)
                        (snd (axios srv (GetMe (getAuthHeaders w)) w)))))"
proof -
  let ?w1 = "w\<lparr>sent := sent w @ [GetMe (getAuthHeaders w)]\<rparr>"
  obtain r w2 where l: "loginWithWallet srv a (mock_signature a) ?w1 = (r, w2)"
    by (cases "loginWithWallet srv a (mock_signature a) ?w1") auto
  show ?thesis
  proof (cases r)
    case (Inl e)
    with l assms show ?thesis
      by (simp add: validate_request_def axios_def Let_def)
  next
    case (Inr b)
    with l login_success [of srv a "mock_signature a" ?w1 b w2]
    obtain t where "t \<noteq> []" "d_token b = StrToken t" by blast
    with Inr l assms show ?thesis
      by (simp add: validate_request_def axios_def Let_def)
  qed
qed

text \<open>
  Claim C2, as stated, fails: a token of three segments whose payload has \<open>exp = 0\<close> is
  not sent to the refresh, although its expiry is far more than ten minutes in the past;
  \<^verbatim>\<open>if (payload.exp)\<close> is false for 0 and the function falls through to the test request.
\<close>

theorem zero_expiry_not_refreshed_counterexample:
  "evaluate (exp_decoder 0) 1700000000000 (localStorage (session_world ''h.p.s'' ''0xAbC'')) = Valid
   \<and> (0::int) * 1000 - 1700000000000 < 10 * 60 * 1000"
  by (simp add: evaluate_def token_expiring_def exp_decoder_def session_world_def
      getItem_def setItem_def)

text \<open>
  An \<open>exp\<close> whose instant is outside the range of dates is not sent to the refresh
  either, however far in the past it lies.
\<close>

lemma unrepresentable_expiry_not_refreshed:
  "evaluate (exp_decoder (- 8640000000001)) 1700000000000
     (localStorage (session_world ''h.p.s'' ''0xAbC'')) = Valid"
  by (simp add: evaluate_def token_expiring_def exp_decoder_def session_world_def
      getItem_def setItem_def getTime_def)

text \<open>
  Claim C2, amended: for a session with a wallet address and a token of three segments
  whose payload decodes with an \<open>exp\<close> that is not 0 and whose instant is a valid date
  (at most 8.64e15 milliseconds from the epoch), the local outcome is ExpiringSoon exactly
  when \<open>exp * 1000 - now < 10 minutes\<close> in milliseconds, an expiry in the past included,
  and Valid otherwise; on ExpiringSoon the first request sent is the login.
\<close>

theorem expiry_threshold_ten_minutes:
  assumes "getItem (localStorage w) ''token'' = Some t"
    and "getItem (localStorage w) ''walletAddress'' = Some a" and "a \<noteq> []"
    and "split CHR ''.'' t = [h, p, s]"
    and "decode p = Claims (Some exp)"
    and "exp \<noteq> 0" and "\<bar>exp * 1000\<bar> \<le> 8640000000000000"
  shows "evaluate decode now (localStorage w)
           = (if exp * 1000 - now < 10 * 60 * 1000 then ExpiringSoon else Valid)
    \<and> (exp * 1000 - now < 10 * 60 * 1000 \<longrightarrow>
          take 1 (new_requests w (snd (checkAuthState srv decode now w)))
            = [PostLogin (toLowerCase a) (mock_signature a)])"
proof -
  have t: "t \<noteq> []" using assms(4) by auto
  have x: "token_expiring decode now t = (exp * 1000 - now < 10 * 60 * 1000)"
    using assms(4-7) by (simp add: token_expiring_def getTime_def)
  have e: "evaluate decode now (localStorage w)
           = (if exp * 1000 - now < 10 * 60 * 1000 then ExpiringSoon else Valid)"
    using evaluate_present [OF assms(1) t assms(2,3)] x by simp
  have r: "take 1 (new_requests w (snd (checkAuthState srv decode now w)))
            = [PostLogin (toLowerCase a) (mock_signature a)]"
    if soon: "exp * 1000 - now < 10 * 60 * 1000"
  proof -
    let ?l = "loginWithWallet srv a (mock_signature a) w"
    have s1: "sent (snd ?l) = sent w @ [PostLogin (toLowerCase a) (mock_signature a)]"
      by (rule login_sent)
    obtain r w1 where l: "?l = (r, w1)" by (cases ?l) auto
    have s1': "sent w1 = sent w @ [PostLogin (toLowerCase a) (mock_signature a)]"
      using s1 l by simp
    show ?thesis
    proof (cases r)
      case (Inr b)
      then show ?thesis using e soon assms(2) l s1'
        by (simp add: checkAuthState_def new_requests_def)
    next
      case (Inl err)
      have "\<exists>rest. sent (snd (validate_request srv a w1)) = sent w1 @ rest"
        by (rule validate_request_extends)
      then obtain rest where "sent (snd (validate_request srv a w1)) = sent w1 @ rest" ..
      then show ?thesis using Inl e soon assms(2) l s1'
        by (simp add: checkAuthState_def new_requests_def)
    qed
  qed
  from e r show ?thesis by blast
qed

theorem expiry_threshold_ten_minutes_witness:
  "evaluate (exp_decoder 1700000540) 1700000000000 (localStorage (session_world ''h.p.s'' ''0xAbC''))
      = ExpiringSoon
   \<and> evaluate (exp_decoder 1700000600) 1700000000000 (localStorage (session_world ''h.p.s'' ''0xAbC''))
      = Valid
   \<and> take 1 (new_requests (session_world ''h.p.s'' ''0xAbC'')
        (snd (checkAuthState token_server (exp_decoder 1700000540) 1700000000000
               (session_world ''h.p.s'' ''0xAbC''))))
      = [PostLogin ''0xabc'' ''mock_signature_for_0xAbC'']"
proof -
  let ?w = "session_world ''h.p.s'' ''0xAbC''"
  have t: "getItem (localStorage ?w) ''token'' = Some ''h.p.s''"
    by (simp add: session_world_def getItem_def setItem_def)
  have a: "getItem (localStorage ?w) ''walletAddress'' = Some ''0xAbC''"
    by (simp add: session_world_def getItem_def setItem_def)
  have ne: "''0xAbC'' \<noteq> []" by simp
  have sp: "split CHR ''.'' ''h.p.s'' = [''h'', ''p'', ''s'']" by simp
  have d1: "exp_decoder 1700000540 ''p'' = Claims (Some 1700000540)"
    by (simp add: exp_decoder_def)
  have d2: "exp_decoder 1700000600 ''p'' = Claims (Some 1700000600)"
    by (simp add: exp_decoder_def)
  have n1: "(1700000540::int) \<noteq> 0" by simp
  have n2: "(1700000600::int) \<noteq> 0" by simp
  have r1: "\<bar>(1700000540::int) * 1000\<bar> \<le> 8640000000000000" by simp
  have r2: "\<bar>(1700000600::int) * 1000\<bar> \<le> 8640000000000000" by simp
  from expiry_threshold_ten_minutes [where decode = "exp_decoder 1700000540" and exp = 1700000540
         and now = 1700000000000 and srv = token_server, OF t a ne sp d1 n1 r1]
       expiry_threshold_ten_minutes [where decode = "exp_decoder 1700000600" and exp = 1700000600
         and now = 1700000000000 and srv = token_server, OF t a ne sp d2 n2 r2]
  show ?thesis by (simp add: lower_example mock_signature_def)
qed

text \<open>
  Claim C6: when the local outcome is Valid, exactly one test request is sent. If it is
  rejected with status 401, exactly one login follows and the result says whether that
  login succeeded; if it is rejected in any other way, no login is sent and the result is
  not authenticated. Such a call sends at most two requests.
\<close>

theorem valid_session_probe_then_one_refresh:
  assumes "evaluate decode now (localStorage w) = Valid"
    and "getItem (localStorage w) ''walletAddress'' = Some a"
  shows "length (filter is_probe (new_requests w (snd (checkAuthState srv decode now w)))) = 1
    \<and> length (new_requests w (snd (checkAuthState srv decode now w))) \<le> 2
    \<and> (\<forall>m d. srv (length (sent w)) (GetMe (getAuthHeaders w)) = Rejected m (Some (401, d)) \<longrightarrow>
          new_requests w (snd (checkAuthState srv decode now w))
            = [GetMe (getAuthHeaders w), PostLogin (toLowerCase a) (mock_signature a)]
          \<and> isAuthenticated (fst (checkAuthState srv decode now w))
            = (\<not> isl (fst (loginWithWallet srv a (mock_signature a)
                              (snd (axios srv (GetMe (getAuthHeaders w)) w))))))
    \<and> (\<forall>m resp. srv (length (sent w)) (GetMe (getAuthHeaders w)) = Rejected m resp \<longrightarrow>
          (\<forall>d. resp \<noteq> Some (401, d)) \<longrightarrow>
          new_requests w (snd (checkAuthState srv decode now w)) = [GetMe (getAuthHeaders w)]
          \<and> \<not> isAuthenticated (fst (checkAuthState srv decode now w)))"
proof -
  have c: "checkAuthState srv decode now w = validate_request srv a w"
    using assms by (simp add: checkAuthState_def)
  note calls = validate_request_calls [of w srv a]
  have one: "length (filter is_probe (new_requests w (snd (validate_request srv a w)))) = 1"
    unfolding calls by (simp split: axios_result.splits option.splits prod.splits)
  have two: "length (new_requests w (snd (validate_request srv a w))) \<le> 2"
    unfolding calls by (simp split: axios_result.splits option.splits prod.splits)
  have r401: "\<forall>m d. srv (length (sent w)) (GetMe (getAuthHeaders w)) = Rejected m (Some (401, d)) \<longrightarrow>
          new_requests w (snd (validate_request srv a w))
            = [GetMe (getAuthHeaders w), PostLogin (toLowerCase a) (mock_signature a)]
          \<and> isAuthenticated (fst (validate_request srv a w))
            = (\<not> isl (fst (loginWithWallet srv a (mock_signature a)
                              (snd (axios srv (GetMe (getAuthHeaders w)) w)))))"
    using validate_request_probe_401 [of srv w _ _ a] by (simp add: calls)
  have other: "\<forall>m resp. srv (length (sent w)) (GetMe (getAuthHeaders w)) = Rejected m resp \<longrightarrow>
          (\<forall>d. resp \<noteq> Some (401, d)) \<longrightarrow>
          new_requests w (snd (validate_request srv a w)) = [GetMe (getAuthHeaders w)]
          \<and> \<not> isAuthenticated (fst (validate_request srv a w))"
    using validate_request_probe_other [of srv w _ _ a]
    by (auto simp: calls split: option.splits)
  from one two r401 other show ?thesis unfolding c by blast
qed

theorem valid_session_probe_then_one_refresh_witness:
  "evaluate no_decoder 1700000000000 (localStorage (session_world ''opaque'' ''0xAbC'')) = Valid
   \<and> new_requests (session_world ''opaque'' ''0xAbC'')
        (snd (checkAuthState revoked_server no_decoder 1700000000000 (session_world ''opaque'' ''0xAbC'')))
      = [GetMe (Some ''Bearer opaque''), PostLogin ''0xabc'' ''mock_signature_for_0xAbC'']
   \<and> isAuthenticated
        (fst (checkAuthState revoked_server no_decoder 1700000000000 (session_world ''opaque'' ''0xAbC'')))"
proof -
  let ?w = "session_world ''opaque'' ''0xAbC''"
  have t: "getItem (localStorage ?w) ''token'' = Some ''opaque''"
    by (simp add: session_world_def getItem_def setItem_def)
  have a: "getItem (localStorage ?w) ''walletAddress'' = Some ''0xAbC''"
    by (simp add: session_world_def getItem_def setItem_def)
  have e: "evaluate no_decoder 1700000000000 (localStorage ?w) = Valid"
    by (simp add: evaluate_def token_expiring_def t a)
  have h: "getAuthHeaders ?w = Some ''Bearer opaque''"
    using getAuthHeaders_present [OF t] by simp
  have p: "revoked_server (length (sent ?w)) (GetMe (getAuthHeaders ?w))
      = Rejected ''Request failed with status code 401'' (Some (401, None))"
    by (simp add: revoked_server_def)
  have l: "\<not> isl (fst (loginWithWallet revoked_server ''0xAbC'' (mock_signature ''0xAbC'')
                        (snd (axios revoked_server (GetMe (getAuthHeaders ?w)) ?w))))"
    by (simp add: loginWithWallet_def loginWithWallet_try_def axios_def revoked_server_def
        empty_body_def setItem_def getItem_def)
  from valid_session_probe_then_one_refresh [OF e a, of revoked_server] p l e h
  show ?thesis by (simp add: lower_example mock_signature_def)
qed

text \<open>
  The bound of two requests belongs to the Valid outcome. On ExpiringSoon a login that
  throws is caught by the handler of the decoding block, the test request follows, and a
  401 there sends a second login: three requests in one call.
\<close>

lemma expiring_refresh_failure_three_requests:
  "new_requests (session_world ''h.p.s'' ''0xAbC'')
     (snd (checkAuthState rejecting_server (exp_decoder 1700000540) 1700000000000
            (session_world ''h.p.s'' ''0xAbC'')))
   = [PostLogin ''0xabc'' ''mock_signature_for_0xAbC'',
      GetMe (Some ''Bearer h.p.s''),
      PostLogin ''0xabc'' ''mock_signature_for_0xAbC'']"
  by (simp add: checkAuthState_def evaluate_def token_expiring_def exp_decoder_def getTime_def
      session_world_def getItem_def setItem_def loginWithWallet_def loginWithWallet_try_def
      loginWithWallet_catch_def validate_request_def axios_def rejecting_server_def
      getAuthHeaders_def getToken_def new_requests_def lower_example mock_signature_def Let_def)

text \<open>
  Claim C7: when the stored token or the stored wallet address is absent (or empty), the
  local outcome is Unauthenticated and \<open>checkAuthState\<close> returns not authenticated at
  once: the world is unchanged, so no request is sent.
\<close>

theorem missing_session_no_requests:
  assumes "\<not> truthy (getItem (localStorage w) ''token'')
         \<or> \<not> truthy (getItem (localStorage w) ''walletAddress'')"
  shows "evaluate decode now (localStorage w) = Unauthenticated
    \<and> checkAuthState srv decode now w
        = (\<lparr>isAuthenticated = False, message = ''Not authenticated - please connect your wallet''\<rparr>, w)
    \<and> new_requests w (snd (checkAuthState srv decode now w)) = []"
proof -
  have e: "evaluate decode now (localStorage w) = Unauthenticated"
    using assms by (auto simp: evaluate_def Let_def)
  then show ?thesis by (simp add: checkAuthState_def new_requests_def)
qed

theorem missing_session_no_requests_witness:
  "getItem (localStorage empty_world) ''token'' = None
   \<and> evaluate no_decoder 0 (localStorage empty_world) = Unauthenticated
   \<and> checkAuthState token_server no_decoder 0 empty_world
        = (\<lparr>isAuthenticated = False, message = ''Not authenticated - please connect your wallet''\<rparr>,
           empty_world)
   \<and> new_requests empty_world (snd (checkAuthState token_server no_decoder 0 empty_world)) = []"
proof -
  have a: "getItem (localStorage empty_world) ''token'' = None"
    by (simp add: empty_world_def getItem_def)
  then have b: "\<not> truthy (getItem (localStorage empty_world) ''token'')
      \<or> \<not> truthy (getItem (localStorage empty_world) ''walletAddress'')" by simp
  from missing_session_no_requests [OF b, of no_decoder 0 token_server] a show ?thesis by blast
qed

text \<open>
  Claim C8: when token and wallet address are present and the token does not split into
  three segments, or the decoding of its second segment throws, the local outcome is
  Valid: the first request is the test request carrying the token, and the token and the
  address are still stored when \<open>checkAuthState\<close> returns.
\<close>

theorem undecodable_token_falls_through:
  assumes "getItem (localStorage w) ''token'' = Some t" and "t \<noteq> []"
    and "getItem (localStorage w) ''walletAddress'' = Some a" and "a \<noteq> []"
    and "length (split CHR ''.'' t) \<noteq> 3 \<or> decode (split CHR ''.'' t ! 1) = DecodeThrows"
  shows "evaluate decode now (localStorage w) = Valid
    \<and> take 1 (new_requests w (snd (checkAuthState srv decode now w))) = [GetMe (Some (''Bearer '' @ t))]
    \<and> getItem (localStorage (snd (checkAuthState srv decode now w))) ''token'' \<noteq> None
    \<and> getItem (localStorage (snd (checkAuthState srv decode now w))) ''walletAddress'' \<noteq> None"
proof -
  have ne: "\<not> token_expiring decode now t"
    using assms(5) by (auto simp: token_expiring_def Let_def)
  have e: "evaluate decode now (localStorage w) = Valid"
    using evaluate_present [OF assms(1-4)] ne by simp
  have c: "checkAuthState srv decode now w = validate_request srv a w"
    using e assms(3) by (simp add: checkAuthState_def)
  have h: "getAuthHeaders w = Some (''Bearer '' @ t)"
    using getAuthHeaders_present [OF assms(1,2)] .
  have k1: "getItem (localStorage w) ''token'' \<noteq> None" using assms(1) by simp
  have k2: "getItem (localStorage w) ''walletAddress'' \<noteq> None" using assms(3) by simp
  show ?thesis
    unfolding c
    using e validate_request_first [of w srv a] h
      validate_request_keeps_keys [OF k1, of srv a] validate_request_keeps_keys [OF k2, of srv a]
    by simp
qed

theorem undecodable_token_falls_through_witness:
  "evaluate no_decoder 1700000000000 (localStorage (session_world ''opaque'' ''0xAbC'')) = Valid
   \<and> take 1 (new_requests (session_world ''opaque'' ''0xAbC'')
        (snd (checkAuthState token_server no_decoder 1700000000000 (session_world ''opaque'' ''0xAbC''))))
      = [GetMe (Some ''Bearer opaque'')]"
proof -
  let ?w = "session_world ''opaque'' ''0xAbC''"
  have t: "getItem (localStorage ?w) ''token'' = Some ''opaque''"
    by (simp add: session_world_def getItem_def setItem_def)
  have a: "getItem (localStorage ?w) ''walletAddress'' = Some ''0xAbC''"
    by (simp add: session_world_def getItem_def setItem_def)
  have d: "length (split CHR ''.'' ''opaque'') \<noteq> 3
      \<or> no_decoder (split CHR ''.'' ''opaque'' ! 1) = DecodeThrows"
    by (simp add: no_decoder_def)
  have n1: "''opaque'' \<noteq> []" by simp
  have n2: "''0xAbC'' \<noteq> []" by simp
  from undecodable_token_falls_through [where decode = no_decoder and now = 1700000000000
      and srv = token_server, OF t n1 a n2 d]
  show ?thesis by simp
qed

section \<open>Properties of the gift card operations\<close>

lemma claim_passes_error_through:
  assumes "srv (length (sent w)) (PostClaim (getAuthHeaders w) giftCardId secret)
             = Rejected m (Some (status, Some d))"
    and "d_error d = Some e" and "e \<noteq> []"
  shows "fst (claimGiftCard srv giftCardId secret w)
           = \<lparr>r_success = False, r_data = None, r_error = Some e\<rparr>"
  using assms by (simp add: claimGiftCard_def axios_def response_error_def)

lemma transfer_always_generic:
  assumes "srv (length (sent w)) (PostTransfer (getAuthHeaders w) giftCardId recipient) = Rejected m r"
  shows "fst (transferGiftCard srv giftCardId recipient w) = Inl (Error ''Failed to transfer gift card'')"
  using assms by (simp add: transferGiftCard_def axios_def)

text \<open>
  Claim C10 at a refusal by the backend with the message "only the owner may transfer":
  \<open>claimGiftCard\<close> hands the message to its caller, \<open>transferGiftCard\<close> throws its own
  fixed message instead.
\<close>

theorem transfer_replaces_backend_message:
  "fst (transferGiftCard owner_only_server ''17'' ''0xBEEF'' (session_world ''aaa.bbb.ccc'' ''0xAbC''))
      = Inl (Error ''Failed to transfer gift card'')
   \<and> r_error (fst (claimGiftCard owner_only_server ''17'' ''secret'' (session_world ''aaa.bbb.ccc'' ''0xAbC'')))
      = Some ''only the owner may transfer''"
  by (simp add: transferGiftCard_def claimGiftCard_def axios_def owner_only_server_def
      response_error_def empty_body_def)

end
